theory Spec2Isabelle
  imports Main
begin

section \<open>The package initialiser \<open>models/__init__.py\<close>\<close>

text \<open>
  The module imports four collaborator modules, lists eight of their names in
  \<^verbatim>\<open>__all__\<close>, binds the module global \<^verbatim>\<open>_generator\<close> to \<^verbatim>\<open>None\<close>
  and defines one function:
  \<^verbatim>\<open>
  _generator: MLXGenerator | None = None

  def get_generator() -> MLXGenerator:
      global _generator
      if _generator is None:
          _generator = MLXGenerator()
      return _generator
  \<close>
  The class \<^verbatim>\<open>MLXGenerator\<close> lives in \<^verbatim>\<open>models/generator.py\<close>, which is not part
  of the fragment, so its constructor is a parameter of the model.
\<close>

subsection \<open>Objects, the constructor and the process state\<close>

text \<open>
  An object is known by its identity only: Python's \<^verbatim>\<open>is\<close> compares references, and
  a reference is modelled as a number.
\<close>

type_synonym ref = nat

text \<open>
  A call of the constructor receives its argument list and the state of everything
  outside this module (model files, the collaborators' own globals). It raises an
  exception (\<open>Inl\<close>) or returns the reference of an instance (\<open>Inr\<close>); either way it
  may have changed the outside state. Instantiating a class yields an instance, never
  \<^verbatim>\<open>None\<close>, which is why the successful result is a \<open>ref\<close> and not a \<open>ref option\<close>.
  The constructor works on the outside state only: it does not assign
  \<^verbatim>\<open>_generator\<close> (the only assignments to that global are the two in this module)
  and does not call \<^verbatim>\<open>get_generator()\<close> itself.
\<close>

type_synonym ('a, 'e, 'w) constructor = "'a list \<Rightarrow> 'w \<Rightarrow> ('e + ref) \<times> 'w"

text \<open>
  The process state: the module global \<^verbatim>\<open>_generator\<close> (an optional reference), the
  outside state, and a ghost log of the constructor invocations made by this module,
  each with the arguments passed and the outcome. The log is instrumentation, as a call
  counter on a stand-in class would be; no code reads it.
\<close>

record ('a, 'e, 'w) process =
  generator :: "ref option"
  world :: 'w
  ctor_log :: "('a list \<times> ('e + ref)) list"

subsection \<open>Importing the module\<close>

text \<open>
  Executing the module's top level: the four \<^verbatim>\<open>from ... import ...\<close> statements run
  the collaborators' top-level code (\<open>collaborators\<close>, its effect on the outside state),
  then \<^verbatim>\<open>__all__\<close> and \<^verbatim>\<open>_generator = None\<close> are bound and the function is
  defined. No statement of the top level calls \<^verbatim>\<open>MLXGenerator\<close>.
\<close>

definition import_models :: "('w \<Rightarrow> 'w) \<Rightarrow> 'w \<Rightarrow> ('a, 'e, 'w) process" where
  "import_models collaborators w =
     \<lparr>generator = None, world = collaborators w, ctor_log = []\<rparr>"

subsection \<open>The accessor\<close>

text \<open>
  \<^verbatim>\<open>get_generator()\<close>. The \<^verbatim>\<open>if\<close> statement tests \<^verbatim>\<open>_generator is None\<close>; in
  that case \<^verbatim>\<open>MLXGenerator()\<close> is called with the empty argument list, and an exception
  it raises leaves the function at once (there is no \<^verbatim>\<open>try\<close>), before the
  assignment. The \<^verbatim>\<open>return\<close> statement reads the global again, so the value returned
  is whatever \<^verbatim>\<open>_generator\<close> then holds, a Python value that could be \<^verbatim>\<open>None\<close>:
  the result type is \<open>ref option\<close>.
\<close>

definition get_generator ::
  "('a, 'e, 'w) constructor \<Rightarrow> ('a, 'e, 'w) process \<Rightarrow> ('e + ref option) \<times> ('a, 'e, 'w) process"
where
  "get_generator MLXGenerator s =
     (if generator s = None then
        (case MLXGenerator [] (world s) of
           (Inl e, w) \<Rightarrow>
             (Inl e, s\<lparr>world := w, ctor_log := ctor_log s @ [([], Inl e)]\<rparr>)
         | (Inr r, w) \<Rightarrow>
             (let s' = s\<lparr>generator := Some r, world := w,
                         ctor_log := ctor_log s @ [([], Inr r)]\<rparr>
              in (Inr (generator s'), s')))
      else (Inr (generator s), s))"

subsection \<open>Runs of a process\<close>

text \<open>
  What happens in a process after the import, as far as this module is concerned, is a
  sequence of calls of the accessor and of other code. Other code changes the outside
  state; it does not assign \<^verbatim>\<open>_generator\<close> (the fragment has no reset), and it is
  also where a caller catches an exception of the accessor and carries on. \<open>run\<close>
  collects the outcomes of the calls in order and returns the final state.
\<close>

datatype 'w action = Call | Other "'w \<Rightarrow> 'w"

fun run ::
  "('a, 'e, 'w) constructor \<Rightarrow> 'w action list \<Rightarrow> ('a, 'e, 'w) process
     \<Rightarrow> ('e + ref option) list \<times> ('a, 'e, 'w) process"
where
  "run MLXGenerator [] s = ([], s)"
| "run MLXGenerator (Call # acts) s =
     (case get_generator MLXGenerator s of
        (out, s') \<Rightarrow>
          (case run MLXGenerator acts s' of (outs, s'') \<Rightarrow> (out # outs, s'')))"
| "run MLXGenerator (Other f # acts) s = run MLXGenerator acts (s\<lparr>world := f (world s)\<rparr>)"

text \<open>The instances this module has obtained from the constructor, oldest first.\<close>

definition constructed :: "('a list \<times> ('e + ref)) list \<Rightarrow> ref list" where
  "constructed log = concat (map (\<lambda>(args, out). case out of Inl e \<Rightarrow> [] | Inr r \<Rightarrow> [r]) log)"

subsection \<open>Stand-in constructors\<close>

text \<open>
  Two stand-ins for the absent class, for concrete runs. The outside state is a counter
  of constructor calls. \<open>counting_ctor\<close> always succeeds and returns a new reference
  each time; \<open>flaky_ctor\<close> fails on its first call (a model that cannot be loaded yet)
  and succeeds afterwards.
\<close>

definition counting_ctor :: "(string, string, nat) constructor" where
  "counting_ctor args n = (Inr n, Suc n)"

definition flaky_ctor :: "(string, string, nat) constructor" where
  "flaky_ctor args n = (if n = 0 then Inl ''model load failed'' else Inr n, Suc n)"

definition fresh_process :: "(string, string, nat) process" where
  "fresh_process = import_models id 0"

subsection \<open>The lifecycle of the cached reference\<close>

text \<open>
  The two situations the \<^verbatim>\<open>if\<close> statement tells apart: \<^verbatim>\<open>_generator is None\<close>
  or not.
\<close>

datatype phase = Uninitialized | Initialized

definition lifecycle :: "('a, 'e, 'w) process \<Rightarrow> phase" where
  "lifecycle s = (case generator s of None \<Rightarrow> Uninitialized | Some r \<Rightarrow> Initialized)"

text \<open>
  The ghost log and the cached reference agree: the module has obtained no instance while
  \<^verbatim>\<open>_generator\<close> is \<^verbatim>\<open>None\<close>, and exactly the cached one afterwards.
\<close>

definition consistent :: "('a, 'e, 'w) process \<Rightarrow> bool" where
  "consistent s =
     (constructed (ctor_log s) = (case generator s of None \<Rightarrow> [] | Some r \<Rightarrow> [r]))"

subsection \<open>The names the module binds\<close>

text \<open>
  The top level of the file, statement by statement (lines 7 to 36): four
  \<^verbatim>\<open>from M import ...\<close> statements, the assignments to \<^verbatim>\<open>__all__\<close> and
  \<^verbatim>\<open>_generator\<close>, and one \<^verbatim>\<open>def\<close> with an empty parameter list.
\<close>

datatype stmt =
  FromImport string "string list"
| Assign string
| Def string "string list"

definition module_body :: "stmt list" where
  "module_body =
     [FromImport ''models.generator'' [''MLXGenerator''],
      FromImport ''models.loader'' [''MLXModelLoader'', ''ModelConfig''],
      FromImport ''models.prompt_builder'' [''PromptBuilder''],
      FromImport ''models.templates''
        [''ResponseTemplate'', ''TemplateMatcher'', ''TemplateMatch'', ''SentenceModelError''],
      Assign ''__all__'',
      Assign ''_generator'',
      Def ''get_generator'' []]"

text \<open>The value of \<^verbatim>\<open>__all__\<close>, in the order of the source.\<close>

definition dunder_all :: "string list" where
  "dunder_all =
     [''MLXGenerator'', ''MLXModelLoader'', ''ModelConfig'', ''PromptBuilder'',
      ''ResponseTemplate'', ''SentenceModelError'', ''TemplateMatcher'', ''TemplateMatch'']"

text \<open>
  What a name of the module's namespace is bound to: a submodule of the package, an
  object imported from another module, a value assigned here, or a function defined here
  (with its parameters).
\<close>

datatype binding = Submodule string | Imported string | Assigned | Function "string list"

text \<open>
  Importing \<^verbatim>\<open>models.X\<close> loads the submodule and binds it as the attribute
  \<^verbatim>\<open>X\<close> of the package \<^verbatim>\<open>models\<close>, whose namespace is this module's. The name
  bound is the component of the dotted name after the package's.
\<close>

definition submodule_of :: "string \<Rightarrow> string list" where
  "submodule_of m =
     (if take (length ''models.'') m = ''models.''
      then [takeWhile (\<lambda>c. c \<noteq> CHR ''.'') (drop (length ''models.'') m)]
      else [])"

fun binds :: "stmt \<Rightarrow> (string \<times> binding) list" where
  "binds (FromImport m names) =
     map (\<lambda>sub. (sub, Submodule m)) (submodule_of m) @ map (\<lambda>n. (n, Imported m)) names"
| "binds (Assign n) = [(n, Assigned)]"
| "binds (Def n params) = [(n, Function params)]"

definition namespace :: "(string \<times> binding) list" where
  "namespace = concat (map binds module_body)"

text \<open>
  Looking a name up in the module (\<^verbatim>\<open>from models import n\<close>, \<^verbatim>\<open>models.n\<close>): a
  later binding of a name replaces an earlier one, so the search starts from the end.
\<close>

definition lookup_name :: "string \<Rightarrow> binding option" where
  "lookup_name n = map_of (rev namespace) n"

fun is_function :: "binding \<Rightarrow> bool" where
  "is_function (Function params) = True"
| "is_function b = False"

section \<open>Properties of a single call\<close>

lemma get_generator_cached:
  "generator s = Some r \<Longrightarrow> get_generator C s = (Inr (Some r), s)"
  by (simp add: get_generator_def)

lemma get_generator_raise:
  "generator s = None \<Longrightarrow> C [] (world s) = (Inl e, w) \<Longrightarrow>
   get_generator C s = (Inl e, s\<lparr>world := w, ctor_log := ctor_log s @ [([], Inl e)]\<rparr>)"
  by (simp add: get_generator_def)

lemma get_generator_construct:
  "generator s = None \<Longrightarrow> C [] (world s) = (Inr r, w) \<Longrightarrow>
   get_generator C s =
     (Inr (Some r), s\<lparr>generator := Some r, world := w, ctor_log := ctor_log s @ [([], Inr r)]\<rparr>)"
  by (simp add: get_generator_def)

lemma get_generator_Inr:
  "get_generator C s = (Inr v, s') \<Longrightarrow> \<exists>r. v = Some r \<and> generator s' = Some r"
  by (auto simp add: get_generator_def Let_def split: if_splits prod.splits sum.splits)

lemma get_generator_Inl:
  "get_generator C s = (Inl e, s') \<Longrightarrow>
   generator s = None \<and> fst (C [] (world s)) = Inl e \<and>
   s' = s\<lparr>world := snd (C [] (world s)), ctor_log := ctor_log s @ [([], Inl e)]\<rparr>"
  by (auto simp add: get_generator_def Let_def split: if_splits prod.splits sum.splits)

lemma get_generator_log:
  "generator s = None \<Longrightarrow>
   ctor_log (snd (get_generator C s)) = ctor_log s @ [([], fst (C [] (world s)))]"
  by (auto simp add: get_generator_def Let_def split: prod.splits sum.splits)

text \<open>
  With \<^verbatim>\<open>_generator\<close> \<^verbatim>\<open>None\<close> the call does not always store a reference: when the
  constructor raises, the call raises too and \<^verbatim>\<open>_generator\<close> is still \<^verbatim>\<open>None\<close>.
\<close>

theorem get_generator_behaviour_counterexample:
  "generator fresh_process = None
   \<and> get_generator flaky_ctor fresh_process =
       (Inl ''model load failed'',
        \<lparr>generator = None, world = 1, ctor_log = [([], Inl ''model load failed'')]\<rparr>)"
  by (simp add: get_generator_def fresh_process_def import_models_def flaky_ctor_def)

text \<open>
  C3, as the code satisfies it. If \<^verbatim>\<open>_generator\<close> is \<^verbatim>\<open>None\<close>, the call invokes the
  constructor once, with no arguments. When the constructor returns an instance, the call
  stores its reference in \<^verbatim>\<open>_generator\<close> and returns it; when the constructor raises,
  the call raises the same exception and stores nothing. If \<^verbatim>\<open>_generator\<close> holds a
  reference, the call returns that reference and changes nothing.
\<close>

theorem get_generator_behaviour:
  "(generator s = None \<longrightarrow>
      ctor_log (snd (get_generator MLXGenerator s)) =
        ctor_log s @ [([], fst (MLXGenerator [] (world s)))]
      \<and> (\<forall>r w. MLXGenerator [] (world s) = (Inr r, w) \<longrightarrow>
            get_generator MLXGenerator s =
              (Inr (Some r),
               s\<lparr>generator := Some r, world := w, ctor_log := ctor_log s @ [([], Inr r)]\<rparr>))
      \<and> (\<forall>e w. MLXGenerator [] (world s) = (Inl e, w) \<longrightarrow>
            get_generator MLXGenerator s =
              (Inl e, s\<lparr>world := w, ctor_log := ctor_log s @ [([], Inl e)]\<rparr>)))
   \<and> (\<forall>r. generator s = Some r \<longrightarrow> get_generator MLXGenerator s = (Inr (Some r), s))"
proof -
  have invoked: "generator s = None \<longrightarrow>
      ctor_log (snd (get_generator MLXGenerator s)) =
        ctor_log s @ [([], fst (MLXGenerator [] (world s)))]"
    by (simp add: get_generator_log)
  have stored: "generator s = None \<longrightarrow>
      (\<forall>r w. MLXGenerator [] (world s) = (Inr r, w) \<longrightarrow>
         get_generator MLXGenerator s =
           (Inr (Some r),
            s\<lparr>generator := Some r, world := w, ctor_log := ctor_log s @ [([], Inr r)]\<rparr>))"
    by (simp add: get_generator_construct)
  have raised: "generator s = None \<longrightarrow>
      (\<forall>e w. MLXGenerator [] (world s) = (Inl e, w) \<longrightarrow>
         get_generator MLXGenerator s =
           (Inl e, s\<lparr>world := w, ctor_log := ctor_log s @ [([], Inl e)]\<rparr>))"
    by (simp add: get_generator_raise)
  have kept: "\<forall>r. generator s = Some r \<longrightarrow> get_generator MLXGenerator s = (Inr (Some r), s)"
    by (simp add: get_generator_cached)
  from invoked stored raised kept show ?thesis by blast
qed

theorem get_generator_behaviour_witness:
  "generator fresh_process = None
   \<and> counting_ctor [] (world fresh_process) = (Inr 0, 1)
   \<and> get_generator counting_ctor fresh_process =
       (Inr (Some 0), \<lparr>generator = Some 0, world = 1, ctor_log = [([], Inr 0)]\<rparr>)
   \<and> flaky_ctor [] (world fresh_process) = (Inl ''model load failed'', 1)
   \<and> get_generator flaky_ctor fresh_process =
       (Inl ''model load failed'',
        \<lparr>generator = None, world = 1, ctor_log = [([], Inl ''model load failed'')]\<rparr>)
   \<and> get_generator counting_ctor \<lparr>generator = Some 0, world = 1, ctor_log = [([], Inr 0)]\<rparr> =
       (Inr (Some 0), \<lparr>generator = Some 0, world = 1, ctor_log = [([], Inr 0)]\<rparr>)"
proof -
  have absent: "generator fresh_process = None"
    by (simp add: fresh_process_def import_models_def)
  have built: "counting_ctor [] (world fresh_process) = (Inr 0, 1)"
    by (simp add: fresh_process_def import_models_def counting_ctor_def)
  have failed: "flaky_ctor [] (world fresh_process) = (Inl ''model load failed'', 1)"
    by (simp add: fresh_process_def import_models_def flaky_ctor_def)
  have present:
    "generator \<lparr>generator = Some 0, world = 1::nat,
                ctor_log = [([]::string list, Inr 0 :: string + ref)]\<rparr> = Some 0"
    by simp
  from get_generator_behaviour [of fresh_process counting_ctor] absent built
  have "get_generator counting_ctor fresh_process =
      (Inr (Some 0),
       fresh_process\<lparr>generator := Some 0, world := 1,
                      ctor_log := ctor_log fresh_process @ [([], Inr 0)]\<rparr>)"
    by blast
  then have first:
    "get_generator counting_ctor fresh_process =
       (Inr (Some 0), \<lparr>generator = Some 0, world = 1, ctor_log = [([], Inr 0)]\<rparr>)"
    by (simp add: fresh_process_def import_models_def)
  from get_generator_behaviour [of fresh_process flaky_ctor] absent failed
  have "get_generator flaky_ctor fresh_process =
      (Inl ''model load failed'',
       fresh_process\<lparr>world := 1,
                      ctor_log := ctor_log fresh_process @ [([], Inl ''model load failed'')]\<rparr>)"
    by blast
  then have refused:
    "get_generator flaky_ctor fresh_process =
       (Inl ''model load failed'',
        \<lparr>generator = None, world = 1, ctor_log = [([], Inl ''model load failed'')]\<rparr>)"
    by (simp add: fresh_process_def import_models_def)
  from get_generator_behaviour
         [of "\<lparr>generator = Some 0, world = 1, ctor_log = [([], Inr 0)]\<rparr>" counting_ctor]
       present
  have second:
    "get_generator counting_ctor \<lparr>generator = Some 0, world = 1, ctor_log = [([], Inr 0)]\<rparr> =
       (Inr (Some 0), \<lparr>generator = Some 0, world = 1, ctor_log = [([], Inr 0)]\<rparr>)"
    by blast
  from absent built first failed refused second show ?thesis by blast
qed

text \<open>
  C10. Whenever \<^verbatim>\<open>get_generator()\<close> returns normally, the value returned is the
  content of \<^verbatim>\<open>_generator\<close> after the call, and it is not \<^verbatim>\<open>None\<close>: the cache is
  initialised and the caller holds the cached instance.
\<close>

theorem get_generator_returns_cached:
  "get_generator MLXGenerator s = (Inr v, s') \<Longrightarrow> v = generator s' \<and> v \<noteq> None"
  using get_generator_Inr [of MLXGenerator s v s'] by auto

theorem get_generator_returns_cached_witness:
  "get_generator counting_ctor fresh_process =
     (Inr (Some 0), \<lparr>generator = Some 0, world = 1, ctor_log = [([], Inr 0)]\<rparr>)
   \<and> Some 0 = generator \<lparr>generator = Some 0, world = 1::nat,
                            ctor_log = [([]::string list, Inr 0 :: string + ref)]\<rparr>
   \<and> Some (0::nat) \<noteq> None"
proof -
  have call: "get_generator counting_ctor fresh_process =
      (Inr (Some 0), \<lparr>generator = Some 0, world = 1, ctor_log = [([], Inr 0)]\<rparr>)"
    by (simp add: get_generator_def fresh_process_def import_models_def counting_ctor_def)
  from get_generator_returns_cached [OF call] call show ?thesis by simp
qed

text \<open>
  C6. \<^verbatim>\<open>get_generator()\<close> has no error of its own: it raises exactly when
  \<^verbatim>\<open>_generator\<close> is \<^verbatim>\<open>None\<close> and the constructor raises, and the exception the
  caller receives is the constructor's, unchanged.
\<close>

theorem get_generator_error_propagation:
  "(fst (get_generator MLXGenerator s) = Inl e) =
     (generator s = None \<and> fst (MLXGenerator [] (world s)) = Inl e)"
  by (auto simp add: get_generator_def Let_def split: prod.splits sum.splits)

theorem get_generator_error_propagation_witness:
  "fst (get_generator flaky_ctor fresh_process) = Inl ''model load failed''
   \<and> generator fresh_process = None
   \<and> fst (flaky_ctor [] (world fresh_process)) = Inl ''model load failed''"
proof -
  have absent: "generator fresh_process = None"
    by (simp add: fresh_process_def import_models_def)
  have raised: "fst (flaky_ctor [] (world fresh_process)) = Inl ''model load failed''"
    by (simp add: fresh_process_def import_models_def flaky_ctor_def)
  from get_generator_error_propagation
         [of flaky_ctor fresh_process "''model load failed''"] absent raised
  show ?thesis by simp
qed

text \<open>
  C9. If the constructor raises during a call, \<^verbatim>\<open>_generator\<close> is still \<^verbatim>\<open>None\<close>
  after the call (the assignment was never reached), and the next call invokes the
  constructor again, in the outside state the failed attempt left.
\<close>

theorem get_generator_failure_atomic:
  "generator s = None \<Longrightarrow> MLXGenerator [] (world s) = (Inl e, w) \<Longrightarrow>
   fst (get_generator MLXGenerator s) = Inl e
   \<and> generator (snd (get_generator MLXGenerator s)) = None
   \<and> world (snd (get_generator MLXGenerator s)) = w
   \<and> ctor_log (snd (get_generator MLXGenerator (snd (get_generator MLXGenerator s)))) =
       ctor_log s @ [([], Inl e), ([], fst (MLXGenerator [] w))]"
proof -
  assume absent: "generator s = None" and raised: "MLXGenerator [] (world s) = (Inl e, w)"
  let ?s1 = "s\<lparr>world := w, ctor_log := ctor_log s @ [([], Inl e)]\<rparr>"
  have first: "get_generator MLXGenerator s = (Inl e, ?s1)"
    using absent raised by (rule get_generator_raise)
  have "generator ?s1 = None" using absent by simp
  then have "ctor_log (snd (get_generator MLXGenerator ?s1)) =
      ctor_log ?s1 @ [([], fst (MLXGenerator [] (world ?s1)))]"
    by (rule get_generator_log)
  with first absent show ?thesis by simp
qed

theorem get_generator_failure_atomic_witness:
  "generator fresh_process = None
   \<and> flaky_ctor [] (world fresh_process) = (Inl ''model load failed'', 1)
   \<and> fst (get_generator flaky_ctor fresh_process) = Inl ''model load failed''
   \<and> generator (snd (get_generator flaky_ctor fresh_process)) = None
   \<and> ctor_log (snd (get_generator flaky_ctor (snd (get_generator flaky_ctor fresh_process)))) =
       [([], Inl ''model load failed''), ([], Inr 1)]"
proof -
  have absent: "generator fresh_process = None"
    by (simp add: fresh_process_def import_models_def)
  have raised: "flaky_ctor [] (world fresh_process) = (Inl ''model load failed'', 1)"
    by (simp add: fresh_process_def import_models_def flaky_ctor_def)
  have again: "fst (flaky_ctor [] 1) = Inr 1"
    by (simp add: flaky_ctor_def)
  have empty: "ctor_log fresh_process = []"
    by (simp add: fresh_process_def import_models_def)
  from get_generator_failure_atomic
         [where s = fresh_process and MLXGenerator = flaky_ctor, OF absent raised]
       absent raised again empty
  show ?thesis by simp
qed

section \<open>Properties of runs\<close>

lemma run_initialized:
  "generator s = Some r \<Longrightarrow> run C acts s = (outs, s') \<Longrightarrow>
   outs = replicate (length outs) (Inr (Some r)) \<and> generator s' = Some r \<and> ctor_log s' = ctor_log s"
proof (induction acts arbitrary: s outs s')
  case Nil
  then show ?case by simp
next
  case (Cons a acts)
  show ?case
  proof (cases a)
    case Call
    from Cons.prems(1) have call: "get_generator C s = (Inr (Some r), s)"
      by (rule get_generator_cached)
    obtain outs1 s1 where rest: "run C acts s = (outs1, s1)"
      by (cases "run C acts s")
    from Cons.IH [OF Cons.prems(1) rest] Cons.prems(2) Call call rest
    show ?thesis by auto
  next
    case (Other f)
    let ?s = "s\<lparr>world := f (world s)\<rparr>"
    have "generator ?s = Some r" using Cons.prems(1) by simp
    moreover have "run C acts ?s = (outs, s')" using Cons.prems(2) Other by simp
    ultimately show ?thesis using Cons.IH [of ?s outs s'] by simp
  qed
qed

lemma run_calls_initialized:
  "generator s = Some r \<Longrightarrow> run C (replicate n Call) s = (replicate n (Inr (Some r)), s)"
  by (induction n) (simp_all add: get_generator_cached)

lemma run_returned:
  "run C acts s = (outs, s') \<Longrightarrow> Inr v \<in> set outs \<Longrightarrow> generator s' = v"
proof (induction acts arbitrary: s outs s')
  case Nil
  then show ?case by simp
next
  case (Cons a acts)
  show ?case
  proof (cases a)
    case Call
    obtain out s1 where call: "get_generator C s = (out, s1)"
      by (cases "get_generator C s")
    obtain outs1 s2 where rest: "run C acts s1 = (outs1, s2)"
      by (cases "run C acts s1")
    from Cons.prems(1) Call call rest have shape: "outs = out # outs1" "s' = s2"
      by simp_all
    show ?thesis
    proof (cases out)
      case (Inl e)
      with Cons.prems(2) shape have "Inr v \<in> set outs1" by simp
      from Cons.IH [OF rest this] shape show ?thesis by simp
    next
      case (Inr u)
      with call obtain r where r: "u = Some r" "generator s1 = Some r"
        using get_generator_Inr [of C s u s1] by auto
      from run_initialized [OF r(2) rest]
      have all: "outs1 = replicate (length outs1) (Inr (Some r))" and g: "generator s2 = Some r"
        by simp_all
      from all have "set outs1 \<subseteq> {Inr (Some r)}"
        by (metis set_replicate_conv_if empty_subsetI subset_refl)
      with Cons.prems(2) shape Inr r(1) have "v = Some r" by auto
      with g shape show ?thesis by simp
    qed
  next
    case (Other f)
    with Cons.prems(1) have "run C acts (s\<lparr>world := f (world s)\<rparr>) = (outs, s')" by simp
    from Cons.IH [OF this Cons.prems(2)] show ?thesis .
  qed
qed

lemma get_generator_consistent:
  "consistent s \<Longrightarrow> consistent (snd (get_generator C s))"
  by (auto simp add: consistent_def constructed_def get_generator_def Let_def
      split: prod.splits sum.splits option.splits)

lemma run_consistent:
  "consistent s \<Longrightarrow> consistent (snd (run C acts s))"
proof (induction acts arbitrary: s)
  case Nil
  then show ?case by simp
next
  case (Cons a acts)
  show ?case
  proof (cases a)
    case Call
    from Cons.IH [OF get_generator_consistent [OF Cons.prems, of C]] Call
    show ?thesis by (auto split: prod.splits)
  next
    case (Other f)
    have "consistent (s\<lparr>world := f (world s)\<rparr>)"
      using Cons.prems by (simp add: consistent_def)
    from Cons.IH [OF this] Other show ?thesis by simp
  qed
qed

lemma import_consistent: "consistent (import_models load w)"
  by (simp add: consistent_def import_models_def constructed_def)

lemma consistent_at_most_one: "consistent s \<Longrightarrow> length (constructed (ctor_log s)) \<le> 1"
  by (simp add: consistent_def split: option.splits)


lemma run_count:
  "generator s = None \<Longrightarrow> run C acts s = (outs, s') \<Longrightarrow>
   length (ctor_log s') =
     length (ctor_log s) + length (takeWhile isl outs) + (if list_all isl outs then 0 else 1)"
proof (induction acts arbitrary: s outs s')
  case Nil
  then show ?case by simp
next
  case (Cons a acts)
  show ?case
  proof (cases a)
    case Call
    obtain out s1 where call: "get_generator C s = (out, s1)"
      by (cases "get_generator C s")
    obtain outs1 s2 where rest: "run C acts s1 = (outs1, s2)"
      by (cases "run C acts s1")
    from Cons.prems(2) Call call rest have shape: "outs = out # outs1" "s' = s2"
      by simp_all
    from get_generator_log [OF Cons.prems(1), of C] call
    have log1: "length (ctor_log s1) = Suc (length (ctor_log s))" by simp
    show ?thesis
    proof (cases out)
      case (Inl e)
      with call have "generator s1 = None"
        using get_generator_Inl [of C s e s1] by simp
      from Cons.IH [OF this rest] log1 shape Inl show ?thesis by simp
    next
      case (Inr u)
      with call obtain r where "generator s1 = Some r"
        using get_generator_Inr [of C s u s1] by auto
      from run_initialized [OF this rest] have "ctor_log s2 = ctor_log s1" by simp
      with log1 shape Inr show ?thesis by simp
    qed
  next
    case (Other f)
    let ?s = "s\<lparr>world := f (world s)\<rparr>"
    have "generator ?s = None" using Cons.prems(1) by simp
    moreover have "run C acts ?s = (outs, s')" using Cons.prems(2) Other by simp
    ultimately show ?thesis using Cons.IH [of ?s outs s'] by simp
  qed
qed

lemma import_generator: "generator (import_models load w) = None"
  by (simp add: import_models_def)

lemma import_log: "ctor_log (import_models load w) = []"
  by (simp add: import_models_def)

text \<open>
  C1. In every run of a process after the import, whatever the constructor does and
  whatever other code runs in between, all references that calls of
  \<^verbatim>\<open>get_generator()\<close> return are the same reference; and the module never obtains
  more than one instance from the constructor.
\<close>

theorem singleton_identity:
  "run MLXGenerator acts (import_models collaborators w) = (outs, s') \<Longrightarrow>
   (\<forall>v v'. Inr v \<in> set outs \<longrightarrow> Inr v' \<in> set outs \<longrightarrow> v = v')
   \<and> length (constructed (ctor_log s')) \<le> 1"
proof -
  assume r: "run MLXGenerator acts (import_models collaborators w) = (outs, s')"
  have "consistent (snd (run MLXGenerator acts (import_models collaborators w)))"
    by (rule run_consistent [OF import_consistent])
  with r have "length (constructed (ctor_log s')) \<le> 1"
    using consistent_at_most_one [of s'] by simp
  moreover have "\<forall>v v'. Inr v \<in> set outs \<longrightarrow> Inr v' \<in> set outs \<longrightarrow> v = v'"
    using run_returned [OF r] by blast
  ultimately show ?thesis by simp
qed

theorem singleton_identity_witness:
  "run counting_ctor [Call, Other Suc, Call, Call] fresh_process =
     ([Inr (Some 0), Inr (Some 0), Inr (Some 0)],
      \<lparr>generator = Some 0, world = 2, ctor_log = [([], Inr 0)]\<rparr>)
   \<and> length (constructed [([]::string list, Inr 0 :: string + ref)]) \<le> 1"
proof -
  have r: "run counting_ctor [Call, Other Suc, Call, Call] (import_models id 0) =
     ([Inr (Some 0), Inr (Some 0), Inr (Some 0)],
      \<lparr>generator = Some 0, world = 2, ctor_log = [([], Inr 0)]\<rparr>)"
    by (simp add: get_generator_def import_models_def counting_ctor_def)
  from singleton_identity [OF r] r show ?thesis
    by (simp add: fresh_process_def)
qed

text \<open>
  The constructor is not always invoked exactly once: when the first call's construction
  raises and the caller calls again, two calls invoke it twice.
\<close>

theorem construction_count_counterexample:
  "length (ctor_log (snd (run flaky_ctor [Call, Call] fresh_process))) = 2"
  by (simp add: get_generator_def fresh_process_def import_models_def flaky_ctor_def)

text \<open>
  C2, as the code satisfies it. In a run with at least one call of \<^verbatim>\<open>get_generator()\<close> whose first
  call returns normally, the constructor is invoked exactly once, however many calls
  follow and whatever other code runs in between.
\<close>

theorem construction_count:
  "run MLXGenerator acts (import_models collaborators w) = (Inr v # outs, s') \<Longrightarrow>
   length (ctor_log s') = 1"
  using run_count [OF import_generator, of MLXGenerator acts collaborators w "Inr v # outs" s']
  by (simp add: import_log)

theorem construction_count_witness:
  "run counting_ctor [Other Suc, Call, Call, Other Suc, Call] fresh_process =
     ([Inr (Some 1), Inr (Some 1), Inr (Some 1)],
      \<lparr>generator = Some 1, world = 3, ctor_log = [([], Inr 1)]\<rparr>)
   \<and> length [([]::string list, Inr 1 :: string + ref)] = 1"
proof -
  have r: "run counting_ctor [Other Suc, Call, Call, Other Suc, Call] (import_models id 0) =
     (Inr (Some 1) # [Inr (Some 1), Inr (Some 1)],
      \<lparr>generator = Some 1, world = 3, ctor_log = [([], Inr 1)]\<rparr>)"
    by (simp add: get_generator_def import_models_def counting_ctor_def)
  from construction_count [OF r] r show ?thesis
    by (simp add: fresh_process_def)
qed

text \<open>
  The constructor is not invoked upon the first call only: when the first call's
  construction raises, the second call invokes it again.
\<close>

theorem lazy_construction_counterexample:
  "ctor_log (snd (run flaky_ctor [Call] fresh_process)) = [([], Inl ''model load failed'')]
   \<and> ctor_log (snd (run flaky_ctor [Call, Call] fresh_process)) =
       [([], Inl ''model load failed''), ([], Inr 1)]"
  by (simp add: get_generator_def fresh_process_def import_models_def flaky_ctor_def)

text \<open>
  C4, as the code satisfies it. Importing the module invokes no constructor and leaves \<^verbatim>\<open>_generator\<close>
  \<^verbatim>\<open>None\<close>. The first call of \<^verbatim>\<open>get_generator()\<close> invokes the constructor, once and
  with no arguments; a later call invokes it only if every call before it raised. So the
  invocations in a run are as many as the calls that raise before any call returns, plus
  one if a call returns.
\<close>

theorem lazy_construction:
  "ctor_log (import_models collaborators w :: ('a, 'e, 'w) process) = []
   \<and> generator (import_models collaborators w :: ('a, 'e, 'w) process) = None
   \<and> ctor_log (snd (get_generator MLXGenerator (import_models collaborators w))) =
       [([], fst ((MLXGenerator :: ('a, 'e, 'w) constructor) [] (collaborators w)))]
   \<and> (run MLXGenerator acts (import_models collaborators w) = (outs, s') \<longrightarrow>
        length (ctor_log s') =
          length (takeWhile isl outs) + (if list_all isl outs then 0 else 1))"
proof -
  have "ctor_log (snd (get_generator MLXGenerator (import_models collaborators w))) =
      ctor_log (import_models collaborators w :: ('a, 'e, 'w) process) @
        [([], fst (MLXGenerator [] (world (import_models collaborators w :: ('a, 'e, 'w) process))))]"
    by (rule get_generator_log [OF import_generator])
  then have first:
    "ctor_log (snd (get_generator MLXGenerator (import_models collaborators w))) =
       [([], fst (MLXGenerator [] (collaborators w)))]"
    by (simp add: import_models_def)
  have count: "run MLXGenerator acts (import_models collaborators w) = (outs, s') \<longrightarrow>
      length (ctor_log s') = length (takeWhile isl outs) + (if list_all isl outs then 0 else 1)"
    using run_count [OF import_generator, of MLXGenerator acts collaborators w outs s']
    by (simp add: import_log)
  from first count show ?thesis by (simp add: import_log import_generator)
qed

theorem lazy_construction_witness:
  "ctor_log fresh_process = []
   \<and> generator fresh_process = None
   \<and> ctor_log (snd (get_generator flaky_ctor fresh_process)) = [([], Inl ''model load failed'')]
   \<and> run flaky_ctor [Call, Call, Call] fresh_process =
       ([Inl ''model load failed'', Inr (Some 1), Inr (Some 1)],
        \<lparr>generator = Some 1, world = 2,
          ctor_log = [([], Inl ''model load failed''), ([], Inr 1)]\<rparr>)
   \<and> length [([]::string list, Inl ''model load failed'' :: string + ref), ([], Inr 1)] =
       length (takeWhile isl [Inl ''model load failed'', Inr (Some (1::nat)), Inr (Some 1)]) + 1"
proof -
  have r: "run flaky_ctor [Call, Call, Call] (import_models id 0) =
       ([Inl ''model load failed'', Inr (Some 1), Inr (Some 1)],
        \<lparr>generator = Some 1, world = 2,
          ctor_log = [([], Inl ''model load failed''), ([], Inr 1)]\<rparr>)"
    by (simp add: get_generator_def import_models_def flaky_ctor_def)
  have f: "fst (flaky_ctor [] (id 0)) = Inl ''model load failed''"
    by (simp add: flaky_ctor_def)
  from lazy_construction [of id 0 flaky_ctor "[Call, Call, Call]"
      "[Inl ''model load failed'', Inr (Some 1), Inr (Some 1)]"
      "\<lparr>generator = Some 1, world = 2,
        ctor_log = [([], Inl ''model load failed''), ([], Inr 1)]\<rparr>"] r f
  show ?thesis by (simp add: fresh_process_def)
qed

text \<open>
  The cached reference is not always set by the first call, and a later call is not
  always a pure read: when the first call's construction raises, the first call leaves
  \<^verbatim>\<open>_generator\<close> \<^verbatim>\<open>None\<close> and the second call sets it.
\<close>

theorem cache_frame_counterexample:
  "generator (snd (run flaky_ctor [Call] fresh_process)) = None
   \<and> generator (snd (run flaky_ctor [Call, Call] fresh_process)) = Some 1"
  by (simp add: get_generator_def fresh_process_def import_models_def flaky_ctor_def)

text \<open>
  C5, as the code satisfies it. A call of \<^verbatim>\<open>get_generator()\<close> changes \<^verbatim>\<open>_generator\<close> exactly when
  it finds it \<^verbatim>\<open>None\<close> and returns normally. After a call that returned normally,
  every later call returns the same value, \<^verbatim>\<open>_generator\<close> and the constructor log stay
  as they are whatever other code runs in between, and a call leaves the whole state
  unchanged.
\<close>

theorem cache_frame:
  "get_generator MLXGenerator s = (out, s1) \<Longrightarrow>
   ((generator s1 \<noteq> generator s) = (generator s = None \<and> \<not> isl out))
   \<and> (\<not> isl out \<longrightarrow>
        run MLXGenerator (replicate n Call) s1 = (replicate n out, s1)
        \<and> (run MLXGenerator acts s1 = (outs, s') \<longrightarrow>
             outs = replicate (length outs) out
             \<and> generator s' = generator s1 \<and> ctor_log s' = ctor_log s1))"
proof (cases out)
  case (Inl e)
  assume call: "get_generator MLXGenerator s = (out, s1)"
  with Inl have "generator s1 = generator s"
    using get_generator_Inl [of MLXGenerator s e s1] by simp
  with Inl show ?thesis by simp
next
  case (Inr u)
  assume call: "get_generator MLXGenerator s = (out, s1)"
  with Inr obtain r where r: "u = Some r" "generator s1 = Some r"
    using get_generator_Inr [of MLXGenerator s u s1] by auto
  have changed: "(generator s1 \<noteq> generator s) = (generator s = None)"
  proof (cases "generator s")
    case None
    with r show ?thesis by simp
  next
    case (Some r')
    from get_generator_cached [OF Some, of MLXGenerator] call have "s1 = s" by simp
    with Some show ?thesis by simp
  qed
  have calls: "run MLXGenerator (replicate n Call) s1 = (replicate n out, s1)"
    using run_calls_initialized [OF r(2), of MLXGenerator n] Inr r(1) by simp
  have later: "run MLXGenerator acts s1 = (outs, s') \<longrightarrow>
      outs = replicate (length outs) out \<and> generator s' = generator s1 \<and> ctor_log s' = ctor_log s1"
    using run_initialized [OF r(2), of MLXGenerator acts outs s'] Inr r by simp
  from changed calls later Inr show ?thesis by simp
qed

theorem cache_frame_witness:
  "get_generator counting_ctor fresh_process =
     (Inr (Some 0), \<lparr>generator = Some 0, world = 1, ctor_log = [([], Inr 0)]\<rparr>)
   \<and> generator \<lparr>generator = Some 0, world = 1::nat,
                  ctor_log = [([]::string list, Inr 0 :: string + ref)]\<rparr> \<noteq> generator fresh_process
   \<and> run counting_ctor (replicate 3 Call) \<lparr>generator = Some 0, world = 1, ctor_log = [([], Inr 0)]\<rparr> =
       (replicate 3 (Inr (Some 0)), \<lparr>generator = Some 0, world = 1, ctor_log = [([], Inr 0)]\<rparr>)
   \<and> run counting_ctor [Other Suc, Call] \<lparr>generator = Some 0, world = 1, ctor_log = [([], Inr 0)]\<rparr> =
       ([Inr (Some 0)], \<lparr>generator = Some 0, world = 2, ctor_log = [([], Inr 0)]\<rparr>)"
proof -
  have call: "get_generator counting_ctor fresh_process =
     (Inr (Some 0), \<lparr>generator = Some 0, world = 1, ctor_log = [([], Inr 0)]\<rparr>)"
    by (simp add: get_generator_def fresh_process_def import_models_def counting_ctor_def)
  have absent: "generator fresh_process = None"
    by (simp add: fresh_process_def import_models_def)
  have later: "run counting_ctor [Other Suc, Call]
       \<lparr>generator = Some 0, world = 1, ctor_log = [([], Inr 0)]\<rparr> =
       ([Inr (Some 0)], \<lparr>generator = Some 0, world = 2, ctor_log = [([], Inr 0)]\<rparr>)"
    by (simp add: get_generator_def)
  from cache_frame [OF call, of 3 "[Other Suc, Call]" "[Inr (Some 0)]"
      "\<lparr>generator = Some 0, world = 2, ctor_log = [([], Inr 0)]\<rparr>"] call absent later
  show ?thesis by simp
qed

section \<open>The lifecycle\<close>

lemma lifecycle_None: "(lifecycle s = Uninitialized) = (generator s = None)"
  by (simp add: lifecycle_def split: option.splits)

lemma lifecycle_Some: "(lifecycle s = Initialized) = (\<exists>r. generator s = Some r)"
  by (simp add: lifecycle_def split: option.splits)

text \<open>
  The first call does not always trigger the transition: when its construction raises,
  the state is still uninitialised after it, and here the second call initialises it.
\<close>

theorem lifecycle_one_way_counterexample:
  "lifecycle (snd (run flaky_ctor [Call] fresh_process)) = Uninitialized
   \<and> lifecycle (snd (run flaky_ctor [Call, Call] fresh_process)) = Initialized"
  by (simp add: lifecycle_def get_generator_def fresh_process_def import_models_def
      flaky_ctor_def)

text \<open>
  C7, as the code satisfies it. The state is uninitialised (\<^verbatim>\<open>_generator\<close> is \<^verbatim>\<open>None\<close>) or
  initialised (it holds a reference), and it is uninitialised after the import. From the
  uninitialised state a call of \<^verbatim>\<open>get_generator()\<close> leads to the initialised state
  exactly when it returns normally. From the initialised state no run leads back: the
  state stays initialised, with the same reference.
\<close>

theorem lifecycle_one_way:
  "(lifecycle s = Uninitialized) = (generator s = None)
   \<and> (lifecycle s = Initialized) = (generator s \<noteq> None)
   \<and> lifecycle (import_models collaborators w :: ('a, 'e, 'w) process) = Uninitialized
   \<and> (lifecycle s = Uninitialized \<longrightarrow>
        (lifecycle (snd (get_generator MLXGenerator s)) = Initialized) =
          (\<not> isl (fst (get_generator (MLXGenerator :: ('a, 'e, 'w) constructor) s))))
   \<and> (lifecycle s = Initialized \<longrightarrow>
        lifecycle (snd (run MLXGenerator acts s)) = Initialized
        \<and> generator (snd (run MLXGenerator acts s)) = generator s)"
proof -
  have two: "(lifecycle s = Uninitialized) = (generator s = None)"
    "(lifecycle s = Initialized) = (generator s \<noteq> None)"
    by (simp_all add: lifecycle_def split: option.splits)
  have start: "lifecycle (import_models collaborators w :: ('a, 'e, 'w) process) = Uninitialized"
    by (simp add: lifecycle_None import_generator)
  have forth: "lifecycle s = Uninitialized \<longrightarrow>
      (lifecycle (snd (get_generator MLXGenerator s)) = Initialized) =
        (\<not> isl (fst (get_generator MLXGenerator s)))"
  proof
    assume "lifecycle s = Uninitialized"
    obtain out s1 where call: "get_generator MLXGenerator s = (out, s1)"
      by (cases "get_generator MLXGenerator s")
    show "(lifecycle (snd (get_generator MLXGenerator s)) = Initialized) =
        (\<not> isl (fst (get_generator MLXGenerator s)))"
    proof (cases out)
      case (Inl e)
      with call have "generator s1 = None"
        using get_generator_Inl [of MLXGenerator s e s1] by simp
      with call Inl show ?thesis by (simp add: lifecycle_def)
    next
      case (Inr u)
      with call obtain r where "generator s1 = Some r"
        using get_generator_Inr [of MLXGenerator s u s1] by auto
      with call Inr show ?thesis by (simp add: lifecycle_def)
    qed
  qed
  have stay: "lifecycle s = Initialized \<longrightarrow>
      lifecycle (snd (run MLXGenerator acts s)) = Initialized
      \<and> generator (snd (run MLXGenerator acts s)) = generator s"
  proof
    assume "lifecycle s = Initialized"
    then obtain r where r: "generator s = Some r"
      by (auto simp add: lifecycle_Some)
    obtain outs s' where run: "run MLXGenerator acts s = (outs, s')"
      by (cases "run MLXGenerator acts s")
    from run_initialized [OF r run] have "generator s' = Some r" by simp
    with r run show "lifecycle (snd (run MLXGenerator acts s)) = Initialized
      \<and> generator (snd (run MLXGenerator acts s)) = generator s"
      by (simp add: lifecycle_def)
  qed
  from two start forth stay show ?thesis by blast
qed

theorem lifecycle_one_way_witness:
  "lifecycle fresh_process = Uninitialized
   \<and> \<not> isl (fst (get_generator counting_ctor fresh_process))
   \<and> lifecycle (snd (get_generator counting_ctor fresh_process)) = Initialized
   \<and> lifecycle (snd (run counting_ctor [Call, Other Suc, Call]
        (snd (get_generator counting_ctor fresh_process)))) = Initialized
   \<and> generator (snd (run counting_ctor [Call, Other Suc, Call]
        (snd (get_generator counting_ctor fresh_process)))) = Some 0"
proof -
  have start: "lifecycle fresh_process = Uninitialized"
    by (simp add: lifecycle_def fresh_process_def import_models_def)
  have call: "get_generator counting_ctor fresh_process =
     (Inr (Some 0), \<lparr>generator = Some 0, world = 1, ctor_log = [([], Inr 0)]\<rparr>)"
    by (simp add: get_generator_def fresh_process_def import_models_def counting_ctor_def)
  from lifecycle_one_way [of fresh_process id 0 counting_ctor "[]"] start call
  have init: "lifecycle (snd (get_generator counting_ctor fresh_process)) = Initialized"
    by simp
  from lifecycle_one_way [of "snd (get_generator counting_ctor fresh_process)" id 0
      counting_ctor "[Call, Other Suc, Call]"] init call
  have "lifecycle (snd (run counting_ctor [Call, Other Suc, Call]
        (snd (get_generator counting_ctor fresh_process)))) = Initialized
    \<and> generator (snd (run counting_ctor [Call, Other Suc, Call]
        (snd (get_generator counting_ctor fresh_process)))) = Some 0"
    by simp
  with start call init show ?thesis by simp
qed

section \<open>The exported names\<close>

text \<open>
  C8. Every name listed in \<^verbatim>\<open>__all__\<close> is bound in the module's namespace by one of
  its import statements, so it can be imported from the package. Beyond those names the
  module offers one function, \<^verbatim>\<open>get_generator\<close>, which takes no parameter; it is
  the only function the module defines and is not itself listed in \<^verbatim>\<open>__all__\<close>.
\<close>

theorem reexport_completeness:
  "(\<forall>n \<in> set dunder_all. \<exists>m. lookup_name n = Some (Imported m))
   \<and> filter (\<lambda>(n, b). is_function b) namespace = [(''get_generator'', Function [])]
   \<and> lookup_name ''get_generator'' = Some (Function [])
   \<and> ''get_generator'' \<notin> set dunder_all"
  by (simp add: dunder_all_def lookup_name_def namespace_def module_body_def submodule_of_def)

theorem reexport_completeness_witness:
  "''TemplateMatch'' \<in> set dunder_all
   \<and> lookup_name ''TemplateMatch'' = Some (Imported ''models.templates'')
   \<and> lookup_name ''get_generator'' = Some (Function [])"
proof -
  have listed: "''TemplateMatch'' \<in> set dunder_all"
    by (simp add: dunder_all_def)
  have bound: "lookup_name ''TemplateMatch'' = Some (Imported ''models.templates'')"
    by (simp add: lookup_name_def namespace_def module_body_def submodule_of_def)
  from reexport_completeness listed bound show ?thesis by simp
qed

end
